theory Spec2Isabelle
  imports Main
begin

section \<open>Python values\<close>

text \<open>
  A Python \<open>str\<close> is a sequence of Unicode code points; \<open>len\<close> counts code points.
  A code point is modelled by its number, a text by the list of its code points.
  \<open>str\<close> turns a literal into such a list.
\<close>

type_synonym pystr = "nat list"

definition str :: "string \<Rightarrow> pystr" where
  "str cs = map of_char cs"

text \<open>
  The characters \<open>str.isspace\<close> accepts, which are the ones \<open>str.strip()\<close> removes and
  \<open>\s\<close> matches in a pattern over \<open>str\<close>.
\<close>

definition isspace :: "nat \<Rightarrow> bool" where
  "isspace c \<longleftrightarrow>
     (9 \<le> c \<and> c \<le> 13) \<or> (28 \<le> c \<and> c \<le> 32) \<or> c = 133 \<or> c = 160 \<or> c = 5760
     \<or> (8192 \<le> c \<and> c \<le> 8202) \<or> c = 8232 \<or> c = 8233 \<or> c = 8239 \<or> c = 8287
     \<or> c = 12288"

definition strip :: "pystr \<Rightarrow> pystr" where
  "strip s = rev (dropWhile isspace (rev (dropWhile isspace s)))"

text \<open>
  \<open>text[i:j]\<close>: a negative index counts from the end, and an index outside the text is
  moved to the nearest end; the slice is empty when the start is not before the stop.
\<close>

definition clamp_index :: "nat \<Rightarrow> int \<Rightarrow> nat" where
  "clamp_index n i =
     (if i < 0 then (if i + int n < 0 then 0 else nat (i + int n))
      else if int n < i then n else nat i)"

definition py_slice :: "'a list \<Rightarrow> int \<Rightarrow> int \<Rightarrow> 'a list" where
  "py_slice xs i j =
     (let a = clamp_index (length xs) i; b = clamp_index (length xs) j
      in take (b - a) (drop a xs))"

text \<open>\<open>s.rfind(c)\<close> for a one-character \<open>c\<close>: the highest index of \<open>c\<close> in \<open>s\<close>, or \<open>-1\<close>.\<close>

fun rfind :: "'a list \<Rightarrow> 'a \<Rightarrow> int" where
  "rfind [] c = - 1"
| "rfind (x # xs) c =
     (let r = rfind xs c in if 0 \<le> r then r + 1 else if x = c then 0 else - 1)"

section \<open>TextProcessor.chunk_text\<close>

text \<open>
  The \<open>while\<close> loop of \<open>chunk_text\<close>, with the loop variables \<open>start\<close> and \<open>chunks\<close> as
  arguments. Nothing in the source bounds the number of iterations, so the loop is a
  partial function: \<open>None\<close> is a run that never leaves the loop.
\<close>

definition window_end :: "int \<Rightarrow> pystr \<Rightarrow> int \<Rightarrow> int" where
  "window_end chunk_size text start =
     (let end = start + chunk_size in
      if end < int (length text) then
        (let chunk_text = py_slice text start end;
             last_period = rfind chunk_text (of_char CHR ''.'');
             last_newline = rfind chunk_text 10;
             break_point = max last_period last_newline
         in if chunk_size - 200 < break_point then start + break_point + 1 else end)
      else end)"

text \<open>The value the loop body assigns to \<open>start\<close> at the end of an iteration.\<close>

definition next_start :: "int \<Rightarrow> int \<Rightarrow> pystr \<Rightarrow> int \<Rightarrow> int" where
  "next_start chunk_size overlap text start =
     (let end = window_end chunk_size text start
      in if end < int (length text) then end - overlap else int (length text))"

partial_function (option) chunk_loop ::
  "int \<Rightarrow> int \<Rightarrow> pystr \<Rightarrow> int \<Rightarrow> pystr list \<Rightarrow> pystr list option" where
  "chunk_loop chunk_size overlap text start chunks =
     (if start < int (length text) then
        (let end = window_end chunk_size text start;
             chunk = strip (py_slice text start end);
             chunks' = (if chunk \<noteq> [] then chunks @ [chunk] else chunks);
             start' = (if end < int (length text) then end - overlap else int (length text))
         in chunk_loop chunk_size overlap text start' chunks')
      else Some chunks)"

definition chunk_text :: "int \<Rightarrow> int \<Rightarrow> pystr \<Rightarrow> pystr list option" where
  "chunk_text chunk_size overlap text =
     (if int (length text) \<le> chunk_size then Some [text]
      else chunk_loop chunk_size overlap text 0 [])"

declare chunk_loop.simps [code]

text \<open>
  The windows \<open>text[start:end]\<close> the loop cuts are described by their index pairs.
  \<open>trimmed\<close> is what the loop appends for a list of windows: each window stripped, the
  empty ones left out. \<open>chained\<close> says that each window starts \<open>overlap\<close> characters before
  the end of the one before it, and \<open>covering\<close> that the windows run from \<open>start\<close> to the
  end of the text.
\<close>

definition trimmed :: "pystr \<Rightarrow> (int \<times> int) list \<Rightarrow> pystr list" where
  "trimmed text ws = filter (\<lambda>c. c \<noteq> []) (map (\<lambda>(s, e). strip (py_slice text s e)) ws)"

fun chained :: "int \<Rightarrow> (int \<times> int) list \<Rightarrow> bool" where
  "chained overlap [] = True"
| "chained overlap [w] = True"
| "chained overlap ((s, e) # (s', e') # ws) =
     (s' = e - overlap \<and> chained overlap ((s', e') # ws))"

definition covering :: "int \<Rightarrow> pystr \<Rightarrow> int \<Rightarrow> (int \<times> int) list \<Rightarrow> bool" where
  "covering overlap text start ws \<longleftrightarrow>
     ws \<noteq> [] \<and> fst (hd ws) = start \<and> int (length text) \<le> snd (last ws)
     \<and> list_all (\<lambda>(s, e). 0 \<le> s \<and> s < e) ws \<and> chained overlap ws"

section \<open>Values and dictionaries\<close>

text \<open>
  The values the YAML loader builds and the pipeline passes on. Dictionary keys are
  \<open>str\<close>, as the source annotates them (\<open>Dict[str, Any]\<close>); a dictionary is the list of
  its items in insertion order. \<open>PScalar t n\<close> is any other scalar the loader can build
  (a float, a date, a datetime, bytes): \<open>n\<close> names the value and \<open>t\<close> is its truth value.
\<close>

datatype pyval =
    PNone
  | PBool bool
  | PInt int
  | PStr pystr
  | PList "pyval list"
  | PDict "(pystr \<times> pyval) list"
  | PScalar bool nat

text \<open>\<open>bool(v)\<close>, which \<open>if v\<close>, \<open>elif v\<close> and \<open>v or w\<close> test.\<close>

fun truthy :: "pyval \<Rightarrow> bool" where
  "truthy PNone = False"
| "truthy (PBool b) = b"
| "truthy (PInt i) = (i \<noteq> 0)"
| "truthy (PStr s) = (s \<noteq> [])"
| "truthy (PList xs) = (xs \<noteq> [])"
| "truthy (PDict kvs) = (kvs \<noteq> [])"
| "truthy (PScalar t n) = t"

text \<open>
  \<open>d[k] = v\<close>: a key that is present keeps its place, a new key goes to the end.
  \<open>k in d\<close> is \<open>map_of d k \<noteq> None\<close>.
\<close>

fun dict_set :: "('k \<times> 'v) list \<Rightarrow> 'k \<Rightarrow> 'v \<Rightarrow> ('k \<times> 'v) list" where
  "dict_set [] k v = [(k, v)]"
| "dict_set ((k', v') # kvs) k v =
     (if k' = k then (k, v) # kvs else (k', v') # dict_set kvs k v)"

section \<open>YAMLProcessor.merge_yaml_results\<close>

text \<open>
  The body of the inner loop for one item \<open>(key, value)\<close> of a result. The first step
  puts the key into \<open>merged\<close>, so the lookup \<open>merged[key]\<close> that follows finds it.
\<close>

definition merge_item ::
  "(pystr \<times> pyval list) list \<Rightarrow> pystr \<times> pyval \<Rightarrow> (pystr \<times> pyval list) list" where
  "merge_item merged kv =
     (case kv of (key, value) \<Rightarrow>
        let merged = (if map_of merged key = None then dict_set merged key [] else merged);
            acc = (case map_of merged key of Some xs \<Rightarrow> xs | None \<Rightarrow> [])
        in case value of
             PList xs \<Rightarrow> dict_set merged key (acc @ xs)
           | _ \<Rightarrow> if truthy value then dict_set merged key (acc @ [value]) else merged)"

text \<open>The body of the outer loop: a result that is not a \<open>dict\<close> is passed over.\<close>

definition merge_result ::
  "(pystr \<times> pyval list) list \<Rightarrow> pyval \<Rightarrow> (pystr \<times> pyval list) list" where
  "merge_result merged result =
     (case result of PDict items \<Rightarrow> foldl merge_item merged items | _ \<Rightarrow> merged)"

definition merge_yaml_results :: "pyval list \<Rightarrow> (pystr \<times> pyval list) list" where
  "merge_yaml_results results = foldl merge_result [] results"

text \<open>
  For the statements: \<open>isinstance(v, dict)\<close>, the items of a result as the inner loop
  visits them, what one value adds to the list of its key, and what the items with key
  \<open>k\<close> add together, in their order.
\<close>

fun is_dict :: "pyval \<Rightarrow> bool" where
  "is_dict (PDict items) = True"
| "is_dict _ = False"

fun items_of :: "pyval \<Rightarrow> (pystr \<times> pyval) list" where
  "items_of (PDict items) = items"
| "items_of _ = []"

fun appended :: "pyval \<Rightarrow> pyval list" where
  "appended (PList xs) = xs"
| "appended v = (if truthy v then [v] else [])"

definition added :: "pystr \<Rightarrow> (pystr \<times> pyval) list \<Rightarrow> pyval list" where
  "added k items = concat (map (\<lambda>kv. appended (snd kv)) (filter (\<lambda>kv. fst kv = k) items))"

section \<open>YAMLProcessor.parse_yaml_from_text\<close>

text \<open>
  Exceptions are values. \<open>YAMLError\<close> stands for \<open>yaml.YAMLError\<close> and its subclasses,
  the only ones the parser catches; the orchestrator catches every \<open>Exception\<close>.
\<close>

datatype exn =
    YAMLError
  | TypeError
  | KeyError
  | ValueError
  | AttributeError
  | ImportError
  | FileNotFoundError
  | OtherException nat

text \<open>
  Code points used below: 10 newline, 35 \<open>#\<close>, 58 colon, 95 underscore, 96 backquote,
  and the letters \<open>y\<close> 121, \<open>a\<close> 97, \<open>m\<close> 109, \<open>l\<close> 108 with their capitals 89, 65, 77, 76,
  which are all that \<open>re.IGNORECASE\<close> lets these four letters match.
\<close>

fun starts_with :: "'a list \<Rightarrow> 'a list \<Rightarrow> bool" where
  "starts_with [] s = True"
| "starts_with (p # ps) [] = False"
| "starts_with (p # ps) (c # cs) = (p = c \<and> starts_with ps cs)"

text \<open>
  The search for \<open>```ya?ml\s*\n(.*?)\n```\<close> with \<open>re.DOTALL | re.IGNORECASE\<close>, written as
  the backtracking matcher runs it; each function returns group 1 of the first match it
  finds, if there is one.

  \<open>find_close\<close> is \<open>(.*?)\n```\<close>: the lazy group grows one character at a time until the
  closing fence follows.
\<close>

fun find_close :: "pystr \<Rightarrow> pystr option" where
  "find_close [] = None"
| "find_close (c # cs) =
     (if starts_with [10, 96, 96, 96] (c # cs) then Some []
      else map_option ((#) c) (find_close cs))"

text \<open>
  \<open>match_ws\<close> is \<open>\s*\n(.*?)\n```\<close>: the greedy \<open>\s*\<close> takes a white-space character when it
  can, and gives it back to \<open>\n\<close> only when the rest does not match after it.
\<close>

fun match_ws :: "pystr \<Rightarrow> pystr option" where
  "match_ws [] = None"
| "match_ws (c # cs) =
     (if isspace c then
        (case match_ws cs of
           Some g \<Rightarrow> Some g
         | None \<Rightarrow> if c = 10 then find_close cs else None)
      else None)"

fun match_ml :: "pystr \<Rightarrow> pystr option" where
  "match_ml (m # l # cs) =
     (if (m = 109 \<or> m = 77) \<and> (l = 108 \<or> l = 76) then match_ws cs else None)"
| "match_ml _ = None"

text \<open>A match that starts at the head of the text; \<open>a?\<close> takes an \<open>a\<close> first and tries without.\<close>

definition match_fence :: "pystr \<Rightarrow> pystr option" where
  "match_fence s =
     (case s of
        b1 # b2 # b3 # y # cs \<Rightarrow>
          if b1 = 96 \<and> b2 = 96 \<and> b3 = 96 \<and> (y = 121 \<or> y = 89) then
            (case cs of
               a # cs' \<Rightarrow>
                 if a = 97 \<or> a = 65 then
                   (case match_ml cs' of Some g \<Rightarrow> Some g | None \<Rightarrow> match_ml cs)
                 else match_ml cs
             | [] \<Rightarrow> match_ml cs)
          else None
      | _ \<Rightarrow> None)"

text \<open>\<open>re.search\<close>: the leftmost position where the pattern matches.\<close>

fun search_fence :: "pystr \<Rightarrow> pystr option" where
  "search_fence [] = match_fence []"
| "search_fence (c # cs) =
     (case match_fence (c # cs) of Some g \<Rightarrow> Some g | None \<Rightarrow> search_fence cs)"

subsection \<open>The fallback \<open>_extract_structured_data\<close>\<close>

text \<open>
  \<open>\w\<close> matches the alphanumeric characters of the Unicode database and the underscore.
  The database belongs to the interpreter, not to this program: \<open>isalnum\<close> is a
  parameter.
\<close>

definition is_word :: "(nat \<Rightarrow> bool) \<Rightarrow> nat \<Rightarrow> bool" where
  "is_word isalnum c \<longleftrightarrow> isalnum c \<or> c = 95"

text \<open>\<open>\w+:\<close> at the head of the text, the lookahead of the split pattern.\<close>

fun word_colon :: "(nat \<Rightarrow> bool) \<Rightarrow> pystr \<Rightarrow> bool" where
  "word_colon isalnum [] = False"
| "word_colon isalnum [c] = False"
| "word_colon isalnum (c # d # cs) =
     (is_word isalnum c \<and> (word_colon isalnum (d # cs) \<or> d = 58))"

text \<open>
  \<open>re.split(r'\n(?=\w+:)', text)\<close>: the text is cut at every newline that a word and a colon
  follow; the newline itself belongs to no section. The result is never empty.
\<close>

fun split_sections :: "(nat \<Rightarrow> bool) \<Rightarrow> pystr \<Rightarrow> pystr list" where
  "split_sections isalnum [] = [[]]"
| "split_sections isalnum (c # cs) =
     (if c = 10 \<and> word_colon isalnum cs then [] # split_sections isalnum cs
      else (case split_sections isalnum cs of
              s # ss \<Rightarrow> (c # s) # ss
            | [] \<Rightarrow> [[c]]))"

text \<open>\<open>s.split('\n')\<close>, never empty either.\<close>

fun split_lines :: "pystr \<Rightarrow> pystr list" where
  "split_lines [] = [[]]"
| "split_lines (c # cs) =
     (if c = 10 then [] # split_lines cs
      else (case split_lines cs of
              l # ls \<Rightarrow> (c # l) # ls
            | [] \<Rightarrow> [[c]]))"

text \<open>
  The body of the loop over the sections: the entry a section stores in \<open>result\<close>, if it
  stores one. \<open>lines\<close> is never empty, so \<open>if lines\<close> holds and \<open>lines[0]\<close> exists.
\<close>

definition section_header :: "pystr \<Rightarrow> pystr" where
  "section_header section =
     (case split_lines (strip section) of
        line # rest \<Rightarrow> strip (filter (\<lambda>c. c \<noteq> 58) line)
      | [] \<Rightarrow> [])"

definition section_content :: "pystr \<Rightarrow> pystr list" where
  "section_content section =
     (case split_lines (strip section) of
        line # rest \<Rightarrow>
          filter (\<lambda>line. line \<noteq> [] \<and> \<not> starts_with [35] line) (map strip rest)
      | [] \<Rightarrow> [])"

definition section_entry :: "pystr \<Rightarrow> (pystr \<times> pystr list) option" where
  "section_entry section =
     (if 58 \<in> set section then
        (let header = section_header section;
             content = section_content section
         in if content \<noteq> [] then Some (header, content) else None)
      else None)"

definition store_section ::
  "(pystr \<times> pystr list) list \<Rightarrow> pystr \<Rightarrow> (pystr \<times> pystr list) list" where
  "store_section result section =
     (case section_entry section of
        Some (header, content) \<Rightarrow> dict_set result header content
      | None \<Rightarrow> result)"

definition extract_structured_data ::
  "(nat \<Rightarrow> bool) \<Rightarrow> pystr \<Rightarrow> (pystr \<times> pystr list) list" where
  "extract_structured_data isalnum text =
     foldl store_section [] (split_sections isalnum text)"

text \<open>The fallback's result as a value: a dictionary of lists of strings.\<close>

definition as_value :: "(pystr \<times> pystr list) list \<Rightarrow> pyval" where
  "as_value result = PDict (map (\<lambda>(header, content). (header, PList (map PStr content))) result)"

subsection \<open>The parser\<close>

text \<open>
  \<open>yaml.safe_load\<close> is the library's: a parameter that gives the loaded value or the
  exception raised. \<open>yaml.safe_load(yaml_text) or {}\<close> is the loaded value when it is
  truthy and the empty dictionary otherwise; only a \<open>YAMLError\<close> leads to the fallback,
  any other exception leaves the function.
\<close>

definition parse_yaml_from_text ::
  "(pystr \<Rightarrow> exn + pyval) \<Rightarrow> (nat \<Rightarrow> bool) \<Rightarrow> pystr \<Rightarrow> exn + pyval" where
  "parse_yaml_from_text safe_load isalnum text =
     (let yaml_text = (case search_fence text of Some g \<Rightarrow> g | None \<Rightarrow> strip text)
      in case safe_load yaml_text of
           Inr v \<Rightarrow> Inr (if truthy v then v else PDict [])
         | Inl YAMLError \<Rightarrow> Inr (as_value (extract_structured_data isalnum text))
         | Inl e \<Rightarrow> Inl e)"

text \<open>
  For the statements: the ASCII letters and digits, which every Unicode database counts
  as alphanumeric, and the text of a line before its first colon, the key the
  specification describes.
\<close>

definition ascii_alnum :: "nat \<Rightarrow> bool" where
  "ascii_alnum c \<longleftrightarrow> (48 \<le> c \<and> c \<le> 57) \<or> (65 \<le> c \<and> c \<le> 90) \<or> (97 \<le> c \<and> c \<le> 122)"

definition before_first_colon :: "pystr \<Rightarrow> pystr" where
  "before_first_colon line = strip (takeWhile (\<lambda>c. c \<noteq> 58) line)"

section \<open>DocumentRAGExtractor.extract_information\<close>

text \<open>
  What a call does: it returns a value, raises an exception, or never comes back (the
  chunker's loop is the only place where that can happen).
\<close>

datatype 'a outcome = Returns 'a | Raises exn | Diverges

text \<open>
  \<open>key in v\<close> and \<open>v[key]\<close> for a \<open>str\<close> key, as Python defines them for each type of \<open>v\<close>:
  membership is a key test on a dictionary, an element test on a list and a substring
  test on a \<open>str\<close>, and a \<open>TypeError\<close> on the scalars; subscription by a \<open>str\<close> works on
  a dictionary only.
\<close>

fun is_substring :: "'a list \<Rightarrow> 'a list \<Rightarrow> bool" where
  "is_substring p [] = (p = [])"
| "is_substring p (c # cs) = (starts_with p (c # cs) \<or> is_substring p cs)"

fun py_contains :: "pystr \<Rightarrow> pyval \<Rightarrow> exn + bool" where
  "py_contains key (PDict items) = Inr (map_of items key \<noteq> None)"
| "py_contains key (PList xs) = Inr (PStr key \<in> set xs)"
| "py_contains key (PStr s) = Inr (is_substring key s)"
| "py_contains key _ = Inl TypeError"

fun py_getitem :: "pyval \<Rightarrow> pystr \<Rightarrow> exn + pyval" where
  "py_getitem (PDict items) key =
     (case map_of items key of Some v \<Rightarrow> Inr v | None \<Rightarrow> Inl KeyError)"
| "py_getitem _ key = Inl TypeError"

text \<open>
  The extractor's fields and collaborators. \<open>format_prompt\<close> is the prompt manager's
  method (a \<open>str.format\<close> call that can raise). \<open>generate\<close> is the model client, an
  external service whose answer, or failure, may differ from call to call: it is given
  the call it answers (the number of the document, the extraction type and the number
  of the chunk) besides the prompt. \<open>tp_chunk_size\<close> and \<open>tp_overlap\<close> are the fields of
  \<open>self.text_processor\<close>, \<open>min_chunk_length\<close> is
  \<open>self.processing_config.get('min_chunk_length', 50)\<close>, \<open>extraction_types\<close> the keys of the
  extraction schema and \<open>timestamp\<close> the time the run reads off the clock;
  \<open>yaml_safe_load\<close> and \<open>str_isalnum\<close> are the parser's parameters.
\<close>

record extractor =
  tp_chunk_size :: int
  tp_overlap :: int
  min_chunk_length :: int
  extraction_types :: "pystr list"
  self_model_type :: pystr
  timestamp :: pystr
  format_prompt :: "pystr \<Rightarrow> pystr \<Rightarrow> exn + pystr"
  generate :: "nat \<times> pystr \<times> nat \<Rightarrow> pystr \<Rightarrow> exn + pystr"
  yaml_safe_load :: "pystr \<Rightarrow> exn + pyval"
  str_isalnum :: "nat \<Rightarrow> bool"

record doc_info =
  file_name :: pystr
  file_type :: pystr
  doc_text :: pystr

text \<open>What \<open>logger.error\<close> is called with in \<open>extract.py\<close>.\<close>

datatype log_entry =
    ChunkError nat pystr exn
  | FileError pystr exn

text \<open>
  The body of the \<open>try\<close> block for chunk \<open>i\<close> of document \<open>d\<close>: the value to append to
  \<open>type_results\<close>, if there is one, or the exception that reaches the \<open>except\<close> clause.
\<close>

definition process_chunk ::
  "extractor \<Rightarrow> nat \<Rightarrow> pystr \<Rightarrow> nat \<times> pystr \<Rightarrow> exn + pyval option" where
  "process_chunk self d extraction_type ic =
     (case ic of (i, chunk) \<Rightarrow>
        case format_prompt self extraction_type chunk of
          Inl e \<Rightarrow> Inl e
        | Inr prompt \<Rightarrow>
            case generate self (d, extraction_type, i) prompt of
              Inl e \<Rightarrow> Inl e
            | Inr response \<Rightarrow>
                case parse_yaml_from_text (yaml_safe_load self) (str_isalnum self) response of
                  Inl e \<Rightarrow> Inl e
                | Inr parsed_data \<Rightarrow>
                    if truthy parsed_data then
                      (case py_contains extraction_type parsed_data of
                         Inl e \<Rightarrow> Inl e
                       | Inr False \<Rightarrow> Inr None
                       | Inr True \<Rightarrow>
                           (case py_getitem parsed_data extraction_type of
                              Inl e \<Rightarrow> Inl e
                            | Inr v \<Rightarrow> Inr (Some v)))
                    else Inr None)"

text \<open>
  The loop over \<open>enumerate(chunks)\<close>, with \<open>type_results\<close> and the error log as state.
  A chunk shorter than \<open>min_chunk_length\<close> is passed over; an exception is logged with
  the chunk's number \<open>i + 1\<close> and the loop goes on.
\<close>

fun chunks_loop ::
  "extractor \<Rightarrow> nat \<Rightarrow> pystr \<Rightarrow> (nat \<times> pystr) list \<Rightarrow>
     pyval list \<times> log_entry list \<Rightarrow> pyval list \<times> log_entry list" where
  "chunks_loop self d extraction_type [] st = st"
| "chunks_loop self d extraction_type ((i, chunk) # rest) (type_results, log) =
     (if int (length chunk) < min_chunk_length self
      then chunks_loop self d extraction_type rest (type_results, log)
      else case process_chunk self d extraction_type (i, chunk) of
             Inr (Some v) \<Rightarrow>
               chunks_loop self d extraction_type rest (type_results @ [v], log)
           | Inr None \<Rightarrow> chunks_loop self d extraction_type rest (type_results, log)
           | Inl e \<Rightarrow>
               chunks_loop self d extraction_type rest
                 (type_results, log @ [ChunkError (i + 1) extraction_type e]))"

definition enumerate_list :: "'a list \<Rightarrow> (nat \<times> 'a) list" where
  "enumerate_list xs = zip [0..<length xs] xs"

text \<open>\<open>results[key].extend(items)\<close>, with the failures of the lookup and of the method.\<close>

definition extend_results ::
  "(pystr \<times> pyval) list \<Rightarrow> pystr \<Rightarrow> pyval list \<Rightarrow> exn + (pystr \<times> pyval) list" where
  "extend_results results key items =
     (case map_of results key of
        None \<Rightarrow> Inl KeyError
      | Some (PList xs) \<Rightarrow> Inr (dict_set results key (PList (xs @ items)))
      | Some _ \<Rightarrow> Inl AttributeError)"

text \<open>The body of the loop over the extraction types, for the chunks of document \<open>d\<close>.\<close>

definition extract_for_type ::
  "extractor \<Rightarrow> nat \<Rightarrow> pystr list \<Rightarrow> (pystr \<times> pyval) list \<times> log_entry list \<Rightarrow> pystr \<Rightarrow>
     exn + (pystr \<times> pyval) list \<times> log_entry list" where
  "extract_for_type self d chunks st extraction_type =
     (case st of (results, log) \<Rightarrow>
        case chunks_loop self d extraction_type (enumerate_list chunks) ([], log) of
          (type_results, log') \<Rightarrow>
            if type_results \<noteq> [] then
              (let merged_results =
                     merge_yaml_results (map (\<lambda>r. PDict [(extraction_type, r)]) type_results)
               in case map_of merged_results extraction_type of
                    Some items \<Rightarrow>
                      (case extend_results results extraction_type items of
                         Inl e \<Rightarrow> Inl e
                       | Inr results' \<Rightarrow> Inr (results', log'))
                  | None \<Rightarrow> Inr (results, log'))
            else Inr (results, log'))"

fun types_loop ::
  "extractor \<Rightarrow> nat \<Rightarrow> pystr list \<Rightarrow> pystr list \<Rightarrow> (pystr \<times> pyval) list \<times> log_entry list \<Rightarrow>
     exn + (pystr \<times> pyval) list \<times> log_entry list" where
  "types_loop self d chunks [] st = Inr st"
| "types_loop self d chunks (extraction_type # rest) st =
     (case extract_for_type self d chunks st extraction_type of
        Inl e \<Rightarrow> Inl e
      | Inr st' \<Rightarrow> types_loop self d chunks rest st')"

text \<open>The loop over the documents; \<open>d\<close> counts them.\<close>

fun docs_loop ::
  "extractor \<Rightarrow> nat \<Rightarrow> doc_info list \<Rightarrow> (pystr \<times> pyval) list \<times> log_entry list \<Rightarrow>
     ((pystr \<times> pyval) list \<times> log_entry list) outcome" where
  "docs_loop self d [] st = Returns st"
| "docs_loop self d (doc # rest) st =
     (case chunk_text (tp_chunk_size self) (tp_overlap self) (doc_text doc) of
        None \<Rightarrow> Diverges
      | Some chunks \<Rightarrow>
          (case types_loop self d chunks (extraction_types self) st of
             Inl e \<Rightarrow> Raises e
           | Inr st' \<Rightarrow> docs_loop self (Suc d) rest st'))"

text \<open>The result structure before the first document: the metadata, then an empty list
  for each extraction type.\<close>

definition initial_results :: "extractor \<Rightarrow> doc_info list \<Rightarrow> (pystr \<times> pyval) list" where
  "initial_results self extracted_texts =
     foldl (\<lambda>results extraction_type. dict_set results extraction_type (PList []))
       [(str ''extraction_metadata'',
         PDict [(str ''timestamp'', PStr (timestamp self)),
                (str ''model_used'', PStr (self_model_type self)),
                (str ''total_documents'', PInt (int (length extracted_texts))),
                (str ''extraction_types'', PList (map PStr (extraction_types self)))])]
       (extraction_types self)"

definition extract_information ::
  "extractor \<Rightarrow> doc_info list \<Rightarrow> log_entry list \<Rightarrow>
     ((pystr \<times> pyval) list \<times> log_entry list) outcome" where
  "extract_information self extracted_texts log =
     docs_loop self 0 extracted_texts (initial_results self extracted_texts, log)"

text \<open>
  For the statements: the items one chunk contributes to its extraction type, and the
  items a document contributes, chunk after chunk.
\<close>

definition chunk_items :: "extractor \<Rightarrow> nat \<Rightarrow> pystr \<Rightarrow> nat \<times> pystr \<Rightarrow> pyval list" where
  "chunk_items self d extraction_type ic =
     (if int (length (snd ic)) < min_chunk_length self then []
      else case process_chunk self d extraction_type ic of
             Inr (Some v) \<Rightarrow> appended v
           | _ \<Rightarrow> [])"

definition doc_items :: "extractor \<Rightarrow> pystr \<Rightarrow> nat \<times> doc_info \<Rightarrow> pyval list" where
  "doc_items self extraction_type ddoc =
     (case chunk_text (tp_chunk_size self) (tp_overlap self) (doc_text (snd ddoc)) of
        None \<Rightarrow> []
      | Some chunks \<Rightarrow>
          concat (map (chunk_items self (fst ddoc) extraction_type) (enumerate_list chunks)))"

text \<open>
  What one chunk appends to \<open>type_results\<close> and what it writes to the log.
\<close>

definition chunk_values :: "extractor \<Rightarrow> nat \<Rightarrow> pystr \<Rightarrow> nat \<times> pystr \<Rightarrow> pyval list" where
  "chunk_values self d extraction_type ic =
     (if int (length (snd ic)) < min_chunk_length self then []
      else case process_chunk self d extraction_type ic of
             Inr (Some v) \<Rightarrow> [v]
           | _ \<Rightarrow> [])"

definition chunk_errors :: "extractor \<Rightarrow> nat \<Rightarrow> pystr \<Rightarrow> nat \<times> pystr \<Rightarrow> log_entry list" where
  "chunk_errors self d extraction_type ic =
     (if int (length (snd ic)) < min_chunk_length self then []
      else case process_chunk self d extraction_type ic of
             Inl e \<Rightarrow> [ChunkError (fst ic + 1) extraction_type e]
           | _ \<Rightarrow> [])"

text \<open>
  For the examples: the reply of the stub model client of the specification's end-to-end
  scenario, the loader's reading of its body, and an extractor with one extraction type
  whose client fails on the calls listed in \<open>failing\<close> and gives that reply on the others.
\<close>

definition widget_reply :: pystr where
  "widget_reply = str ''```yaml\<newline>products:\<newline>  - Widget\<newline>```''"

definition widget_load :: "pystr \<Rightarrow> exn + pyval" where
  "widget_load body =
     (if body = str ''products:\<newline>  - Widget''
      then Inr (PDict [(str ''products'', PList [PStr (str ''Widget'')])])
      else Inl YAMLError)"

definition widget_extractor :: "int \<Rightarrow> int \<Rightarrow> (nat \<times> nat) list \<Rightarrow> extractor" where
  "widget_extractor csize lap failing =
     \<lparr>tp_chunk_size = csize, tp_overlap = lap, min_chunk_length = 5,
      extraction_types = [str ''products''],
      self_model_type = str ''ollama'', timestamp = str ''2024-01-01T00:00:00'',
      format_prompt = (\<lambda>extraction_type chunk. Inr (extraction_type @ chunk)),
      generate = (\<lambda>(d, extraction_type, i) prompt.
         if (d, i) \<in> set failing then Inl (OtherException 0) else Inr widget_reply),
      yaml_safe_load = widget_load,
      str_isalnum = ascii_alnum\<rparr>"

section \<open>The run: configuration, ingestion, extraction\<close>

subsection \<open>ConfigManager\<close>

definition required_sections :: "pystr list" where
  "required_sections =
     [str ''general'', str ''models'', str ''extraction_schema'', str ''processing'']"

text \<open>
  \<open>_validate_config\<close>: the first failure of the loop over the required sections, if
  there is one. \<open>section not in config\<close> is Python's membership test on whatever the
  configuration file was loaded as.
\<close>

fun validate_sections :: "pyval \<Rightarrow> pystr list \<Rightarrow> exn option" where
  "validate_sections config [] = None"
| "validate_sections config (section # rest) =
     (case py_contains section config of
        Inl e \<Rightarrow> Some e
      | Inr False \<Rightarrow> Some ValueError
      | Inr True \<Rightarrow> validate_sections config rest)"

definition validate_config :: "pyval \<Rightarrow> exn option" where
  "validate_config config = validate_sections config required_sections"

text \<open>
  The world outside the program, for one run: which files exist and what loading them
  gives, the \<open>--model\<close> argument, what constructing the OpenAI client does, the files of the
  documents directory by type with what reading or processing each of them does, the
  types that have a processor, the failure of writing the output if there is one, and
  in \<open>collaborators\<close> the extractor's collaborators together with the numbers the
  configuration gives for the chunk size, the overlap and the minimum chunk length
  (the defaults when it gives none), taken to be integers.
\<close>

record doc_file =
  path_name :: pystr
  size_ok :: bool
  read_result :: "exn + pystr"
  process_result :: "exn + bool \<times> pystr"

record world =
  config_exists :: bool
  config_yaml :: "exn + pyval"
  prompts_exists :: bool
  prompts_yaml :: "exn + pyval"
  model_arg :: "pystr option"
  openai_init :: "exn option"
  docs_exists :: bool
  files_by_type :: "(pystr \<times> doc_file list) list"
  processors :: "pystr list"
  clean_text :: "pystr \<Rightarrow> pystr"
  save_error :: "exn option"
  collaborators :: extractor

definition load_config :: "world \<Rightarrow> exn + pyval" where
  "load_config w =
     (if \<not> config_exists w then Inl FileNotFoundError
      else case config_yaml w of
             Inl e \<Rightarrow> Inl e
           | Inr config \<Rightarrow>
               (case validate_config config of Some e \<Rightarrow> Inl e | None \<Rightarrow> Inr config))"

definition load_prompts :: "world \<Rightarrow> exn + pyval" where
  "load_prompts w =
     (if \<not> prompts_exists w then Inl FileNotFoundError else prompts_yaml w)"

text \<open>
  \<open>model_type or self.config['models']['default']\<close>, with the argument of the command
  line, which is a \<open>str\<close> or \<open>None\<close>.
\<close>

definition resolve_model_type :: "pyval \<Rightarrow> pystr option \<Rightarrow> exn + pyval" where
  "resolve_model_type config arg =
     (case arg of
        Some (c # cs) \<Rightarrow> Inr (PStr (c # cs))
      | _ \<Rightarrow>
          (case py_getitem config (str ''models'') of
             Inl e \<Rightarrow> Inl e
           | Inr models \<Rightarrow> py_getitem models (str ''default'')))"

text \<open>
  \<open>get_model_config\<close>, called with the model type resolved above. A model type that is
  not a \<open>str\<close> came out of the \<open>models\<close> dictionary, whose keys are \<open>str\<close>: the membership
  test raises \<open>TypeError\<close> for an unhashable value and finds no other value.
\<close>

definition get_model_config :: "pyval \<Rightarrow> pyval \<Rightarrow> exn + pyval" where
  "get_model_config config model_type =
     (case py_getitem config (str ''models'') of
        Inl e \<Rightarrow> Inl e
      | Inr models \<Rightarrow>
          (case model_type of
             PStr s \<Rightarrow>
               (case py_contains s models of
                  Inl e \<Rightarrow> Inl e
                | Inr False \<Rightarrow> Inl ValueError
                | Inr True \<Rightarrow> py_getitem models s)
           | PList xs \<Rightarrow> Inl TypeError
           | PDict items \<Rightarrow> Inl TypeError
           | _ \<Rightarrow> Inl ValueError))"

text \<open>
  \<open>LLMFactory.create_llm\<close>: \<open>model_config.get\<close> needs a dictionary, the OpenAI client may
  fail to construct, and any other model type is unsupported. The result is the model
  type of the client built.
\<close>

definition create_llm :: "world \<Rightarrow> pyval \<Rightarrow> pyval \<Rightarrow> exn + pystr" where
  "create_llm w model_config model_type =
     (if model_type = PStr (str ''ollama'') then
        (if is_dict model_config then Inr (str ''ollama'') else Inl AttributeError)
      else if model_type = PStr (str ''openai'') then
        (if is_dict model_config then
           (case openai_init w of Some e \<Rightarrow> Inl e | None \<Rightarrow> Inr (str ''openai''))
         else Inl AttributeError)
      else Inl ValueError)"

subsection \<open>DocumentRAGExtractor\<close>

text \<open>\<open>__init__\<close>: the extractor and the configuration it keeps, or the exception.\<close>

definition init :: "world \<Rightarrow> exn + extractor \<times> pyval" where
  "init w =
     (case load_config w of Inl e \<Rightarrow> Inl e | Inr config \<Rightarrow>
      case load_prompts w of Inl e \<Rightarrow> Inl e | Inr prompts \<Rightarrow>
      case py_getitem config (str ''general'') of Inl e \<Rightarrow> Inl e | Inr general_config \<Rightarrow>
      case py_getitem config (str ''processing'') of Inl e \<Rightarrow> Inl e | Inr processing_config \<Rightarrow>
      if \<not> is_dict general_config then Inl AttributeError else
      case resolve_model_type config (model_arg w) of Inl e \<Rightarrow> Inl e | Inr model_type \<Rightarrow>
      case get_model_config config model_type of Inl e \<Rightarrow> Inl e | Inr model_config \<Rightarrow>
      case create_llm w model_config model_type of Inl e \<Rightarrow> Inl e | Inr name \<Rightarrow>
        Inr ((collaborators w)\<lparr>self_model_type := name\<rparr>, config))"

text \<open>
  The body of the loop over the files of one type. \<open>self.processing_config.get\<close> stands
  before the \<open>try\<close>; a file that is too large is passed over; an exception raised while
  the file is read or processed is logged.
\<close>

definition ingest_file ::
  "world \<Rightarrow> pyval \<Rightarrow> pystr \<Rightarrow> doc_info list \<times> log_entry list \<Rightarrow> doc_file \<Rightarrow>
     exn + doc_info list \<times> log_entry list" where
  "ingest_file w processing_config ftype st f =
     (case st of (extracted_texts, log) \<Rightarrow>
        if \<not> is_dict processing_config then Inl AttributeError
        else if \<not> size_ok f then Inr (extracted_texts, log)
        else if ftype = str ''txt'' then
          (case read_result f of
             Inl e \<Rightarrow> Inr (extracted_texts, log @ [FileError (path_name f) e])
           | Inr content \<Rightarrow>
               Inr (extracted_texts @
                      [\<lparr>file_name = path_name f, file_type = ftype,
                        doc_text = clean_text w content\<rparr>], log))
        else if ftype \<in> set (processors w) then
          (case process_result f of
             Inl e \<Rightarrow> Inr (extracted_texts, log @ [FileError (path_name f) e])
           | Inr (success, text_content) \<Rightarrow>
               if success then
                 Inr (extracted_texts @
                        [\<lparr>file_name = path_name f, file_type = ftype,
                          doc_text = text_content\<rparr>], log)
               else Inr (extracted_texts, log))
        else Inr (extracted_texts, log))"

fun ingest_files ::
  "world \<Rightarrow> pyval \<Rightarrow> pystr \<Rightarrow> doc_file list \<Rightarrow> doc_info list \<times> log_entry list \<Rightarrow>
     exn + doc_info list \<times> log_entry list" where
  "ingest_files w processing_config ftype [] st = Inr st"
| "ingest_files w processing_config ftype (f # files) st =
     (case ingest_file w processing_config ftype st f of
        Inl e \<Rightarrow> Inl e
      | Inr st' \<Rightarrow> ingest_files w processing_config ftype files st')"

fun ingest_types ::
  "world \<Rightarrow> pyval \<Rightarrow> (pystr \<times> doc_file list) list \<Rightarrow> doc_info list \<times> log_entry list \<Rightarrow>
     exn + doc_info list \<times> log_entry list" where
  "ingest_types w processing_config [] st = Inr st"
| "ingest_types w processing_config ((ftype, files) # rest) st =
     (case ingest_files w processing_config ftype files st of
        Inl e \<Rightarrow> Inl e
      | Inr st' \<Rightarrow> ingest_types w processing_config rest st')"

text \<open>
  \<open>process_documents\<close>, with \<open>extract_information\<close> reading the extraction types off the
  configuration: \<open>list(extraction_schema.keys())\<close>.
\<close>

definition process_documents ::
  "world \<Rightarrow> extractor \<times> pyval \<Rightarrow> ((pystr \<times> pyval) list \<times> log_entry list) outcome" where
  "process_documents w sc =
     (case sc of (self, config) \<Rightarrow>
        if \<not> docs_exists w then Raises FileNotFoundError
        else case py_getitem config (str ''processing'') of
          Inl e \<Rightarrow> Raises e
        | Inr processing_config \<Rightarrow>
            (case ingest_types w processing_config (files_by_type w) ([], []) of
               Inl e \<Rightarrow> Raises e
             | Inr (extracted_texts, log) \<Rightarrow>
                 (case py_getitem config (str ''extraction_schema'') of
                    Inl e \<Rightarrow> Raises e
                  | Inr (PDict schema) \<Rightarrow>
                      extract_information (self\<lparr>extraction_types := map fst schema\<rparr>)
                        extracted_texts log
                  | Inr _ \<Rightarrow> Raises AttributeError)))"

text \<open>
  The summary \<open>main\<close> prints after saving reads three entries of
  \<open>results['extraction_metadata']\<close>; each subscription can fail.
\<close>

definition print_summary :: "(pystr \<times> pyval) list \<Rightarrow> exn option" where
  "print_summary results =
     (case py_getitem (PDict results) (str ''extraction_metadata'') of
        Inl e \<Rightarrow> Some e
      | Inr metadata \<Rightarrow>
          (case py_getitem metadata (str ''model_used'') of
             Inl e \<Rightarrow> Some e
           | Inr model_used \<Rightarrow>
               (case py_getitem metadata (str ''total_documents'') of
                  Inl e \<Rightarrow> Some e
                | Inr total_documents \<Rightarrow>
                    (case py_getitem metadata (str ''extraction_types'') of
                       Inl e \<Rightarrow> Some e
                     | Inr types \<Rightarrow> None))))"

text \<open>
  The \<open>try\<close> block of \<open>main\<close>: construct the extractor, process the documents, save the
  results, print the summary. \<open>Raises e\<close> is the run that ends in the \<open>except\<close> clause,
  which reports the error and exits with status 1.
\<close>

definition run :: "world \<Rightarrow> ((pystr \<times> pyval) list \<times> log_entry list) outcome" where
  "run w =
     (case init w of
        Inl e \<Rightarrow> Raises e
      | Inr sc \<Rightarrow>
          (case process_documents w sc of
             Returns (results, log) \<Rightarrow>
               (case save_error w of
                  Some e \<Rightarrow> Raises e
                | None \<Rightarrow>
                    (case print_summary results of
                       Some e \<Rightarrow> Raises e
                     | None \<Rightarrow> Returns (results, log)))
           | Raises e \<Rightarrow> Raises e
           | Diverges \<Rightarrow> Diverges))"







section \<open>Properties of the chunker\<close>

subsection \<open>Slices, searches and window ends\<close>

lemma rfind_lower: "- 1 \<le> rfind xs c"
  by (induction xs) (auto simp: Let_def)

lemma rfind_upper: "rfind xs c < int (length xs)"
  by (induction xs) (auto simp: Let_def)

lemma length_py_slice:
  "0 \<le> i \<Longrightarrow> 0 \<le> j \<Longrightarrow> int (length (py_slice xs i j)) \<le> max 0 (j - i)"
  by (auto simp: py_slice_def clamp_index_def Let_def)

lemma py_slice_nth:
  assumes "0 \<le> s" "s \<le> int i" "int i < e" "i < length xs"
  shows "xs ! i \<in> set (py_slice xs s e)"
proof -
  let ?a = "clamp_index (length xs) s" and ?b = "clamp_index (length xs) e"
  have a: "?a = nat s" "?a \<le> i" using assms by (auto simp: clamp_index_def)
  have b: "i < ?b" using assms by (auto simp: clamp_index_def)
  have "take (?b - ?a) (drop ?a xs) ! (i - ?a) = xs ! i"
    using a b assms by simp
  moreover have "i - ?a < length (take (?b - ?a) (drop ?a xs))"
    using a b assms by (simp add: less_diff_conv2)
  ultimately show ?thesis
    unfolding py_slice_def Let_def by (metis nth_mem)
qed

lemma dropWhile_keeps: "x \<in> set xs \<Longrightarrow> \<not> P x \<Longrightarrow> x \<in> set (dropWhile P xs)"
  by (induction xs) auto

lemma strip_keeps: "x \<in> set xs \<Longrightarrow> \<not> isspace x \<Longrightarrow> x \<in> set (strip xs)"
  by (simp add: strip_def dropWhile_keeps)

lemma window_end_upper:
  assumes "0 \<le> start" "0 \<le> chunk_size"
  shows "window_end chunk_size t start \<le> start + chunk_size"
proof -
  have "rfind (py_slice t start (start + chunk_size)) c + 1 \<le> chunk_size" for c
    using rfind_upper [of "py_slice t start (start + chunk_size)" c]
      length_py_slice [of start "start + chunk_size" t] assms by linarith
  then show ?thesis
    by (auto simp: window_end_def Let_def max_def)
qed

lemma window_end_lower: "start + chunk_size - 198 \<le> window_end chunk_size t start"
  by (auto simp: window_end_def Let_def)

subsection \<open>One iteration of the loop\<close>

lemma chunk_loop_done:
  "int (length t) \<le> start \<Longrightarrow> chunk_loop chunk_size overlap t start chunks = Some chunks"
  by (subst chunk_loop.simps) simp

lemma chunk_loop_step:
  "start < int (length t) \<Longrightarrow>
   chunk_loop chunk_size overlap t start chunks =
     chunk_loop chunk_size overlap t (next_start chunk_size overlap t start)
       (if strip (py_slice t start (window_end chunk_size t start)) \<noteq> []
        then chunks @ [strip (py_slice t start (window_end chunk_size t start))]
        else chunks)"
  by (subst chunk_loop.simps) (simp add: Let_def next_start_def)



subsection \<open>What the loop appends\<close>

lemma strip_prefix_of_dropWhile:
  "\<exists>rest. dropWhile isspace s = strip s @ rest"
proof -
  let ?a = "dropWhile isspace s"
  have "rev ?a = takeWhile isspace (rev ?a) @ dropWhile isspace (rev ?a)"
    by simp
  then have "?a = rev (dropWhile isspace (rev ?a)) @ rev (takeWhile isspace (rev ?a))"
    by (metis rev_append rev_rev_ident)
  then show ?thesis by (auto simp: strip_def)
qed

lemma strip_idem: "strip (strip s) = strip s"
proof (cases "strip s = []")
  case True
  show ?thesis unfolding True by (simp add: strip_def)
next
  case False
  obtain rest where a: "dropWhile isspace s = strip s @ rest"
    using strip_prefix_of_dropWhile by blast
  with False have "dropWhile isspace s \<noteq> []" by simp
  then have "\<not> isspace (hd (dropWhile isspace s))" by (rule hd_dropWhile)
  with a False have "\<not> isspace (hd (strip s))" by simp
  with False have front: "dropWhile isspace (strip s) = strip s"
    by (cases "strip s") simp_all
  have "dropWhile isspace (rev (strip s)) = rev (strip s)"
    by (simp add: strip_def)
  with front show ?thesis
    by (simp add: strip_def)
qed

lemma chunk_loop_stripped:
  assumes "chunk_loop chunk_size overlap t start chunks = Some r"
    and "\<forall>c \<in> set chunks. c \<noteq> [] \<and> strip c = c"
  shows "\<forall>c \<in> set r. c \<noteq> [] \<and> strip c = c"
proof -
  define Q where "Q = (\<lambda>x :: pystr. x \<noteq> [] \<and> strip x = x)"
  have new: "Q (strip z)" if "strip z \<noteq> []" for z
    using that by (simp add: Q_def strip_idem)
  have step: "list_all Q e \<longrightarrow> list_all Q y"
    if ih: "\<And>a b c d e y. f a b c d e = Some y \<Longrightarrow> list_all Q e \<longrightarrow> list_all Q y"
      and body: "(if d < int (length c)
        then let end = window_end a c d;
                 chunk = strip (py_slice c d end);
                 chunks' = (if chunk \<noteq> [] then e @ [chunk] else e);
                 start' = (if end < int (length c) then end - b else int (length c))
             in f a b c start' chunks'
        else Some e) = Some y"
    for f a b c d e y
  proof (cases "d < int (length c)")
    case False
    with body show ?thesis by simp
  next
    case True
    let ?chunk = "strip (py_slice c d (window_end a c d))"
    let ?start = "if window_end a c d < int (length c) then window_end a c d - b
                  else int (length c)"
    show ?thesis
    proof (cases "?chunk = []")
      case empty: True
      from body True empty have "f a b c ?start e = Some y"
        by (simp add: Let_def)
      from ih [OF this] show ?thesis .
    next
      case False
      from body True False have "f a b c ?start (e @ [?chunk]) = Some y"
        by (simp add: Let_def)
      from ih [OF this] new [OF False] show ?thesis by simp
    qed
  qed
  have "list_all Q chunks \<longrightarrow> list_all Q r"
    by (rule chunk_loop.raw_induct
        [where P = "\<lambda>a b c d e y. list_all Q e \<longrightarrow> list_all Q y", OF step assms(1)])
  with assms(2) show ?thesis
    by (simp add: Q_def list_all_iff)
qed

lemma next_start_bounded: "next_start chunk_size overlap t start \<le> int (length t) \<or>
    next_start chunk_size overlap t start = window_end chunk_size t start - overlap"
  by (simp add: next_start_def Let_def)

subsection \<open>A start that does not move\<close>

text \<open>
  When an iteration at \<open>start = 0\<close> ends with \<open>start = 0\<close> again, every later iteration
  does the same, and the loop has no result.
\<close>

lemma chunk_loop_stuck:
  assumes "0 < int (length t)" "next_start cs ov t 0 = 0"
  shows "chunk_loop cs ov t 0 chunks = None"
proof (rule ccontr)
  assume "chunk_loop cs ov t 0 chunks \<noteq> None"
  then obtain y where y: "chunk_loop cs ov t 0 chunks = Some y" by auto
  have step: "\<not> (a = cs \<and> b = ov \<and> c = t \<and> d = 0)"
    if ih: "\<And>a b c d e y. f a b c d e = Some y \<Longrightarrow> \<not> (a = cs \<and> b = ov \<and> c = t \<and> d = 0)"
      and body: "(if d < int (length c)
        then let end = window_end a c d;
                 chunk = strip (py_slice c d end);
                 chunks' = (if chunk \<noteq> [] then e @ [chunk] else e);
                 start' = (if end < int (length c) then end - b else int (length c))
             in f a b c start' chunks'
        else Some e) = Some y'"
    for f a b c d e y'
  proof
    assume eq: "a = cs \<and> b = ov \<and> c = t \<and> d = 0"
    with body assms obtain e' where "f cs ov t 0 e' = Some y'"
      by (auto simp: Let_def next_start_def split: if_splits)
    from ih [OF this] show False by simp
  qed
  have "\<not> (cs = cs \<and> ov = ov \<and> t = t \<and> (0::int) = 0)"
    by (rule chunk_loop.raw_induct
        [where P = "\<lambda>a b c d e y. \<not> (a = cs \<and> b = ov \<and> c = t \<and> d = 0)", OF step y])
  then show False by simp
qed

subsection \<open>Termination and the windows of a run\<close>

lemma trimmed_Cons:
  "trimmed t ((s, e) # ws) =
     (if strip (py_slice t s e) \<noteq> [] then [strip (py_slice t s e)] else []) @ trimmed t ws"
  by (simp add: trimmed_def)

lemma chunk_loop_windows:
  assumes "0 \<le> overlap" "overlap + 198 < chunk_size"
  shows "0 \<le> start \<Longrightarrow> start < int (length t) \<Longrightarrow>
    \<exists>ws. chunk_loop chunk_size overlap t start chunks = Some (chunks @ trimmed t ws)
       \<and> covering overlap t start ws"
proof (induction "nat (int (length t) - start)" arbitrary: start chunks rule: less_induct)
  case less
  let ?e = "window_end chunk_size t start"
  let ?c = "strip (py_slice t start ?e)"
  let ?chunks = "if ?c \<noteq> [] then chunks @ [?c] else chunks"
  have lo: "start < ?e"
    using window_end_lower [of start chunk_size t] assms by linarith
  show ?case
  proof (cases "?e < int (length t)")
    case False
    have "chunk_loop chunk_size overlap t start chunks = Some (chunks @ trimmed t [(start, ?e)])"
      using False less.prems
      by (simp add: chunk_loop_step next_start_def chunk_loop_done trimmed_def)
    moreover have "covering overlap t start [(start, ?e)]"
      using False less.prems lo by (simp add: covering_def)
    ultimately show ?thesis by blast
  next
    case e: True
    have adv: "start < ?e - overlap"
      using window_end_lower [of start chunk_size t] assms by linarith
    have "\<exists>ws. chunk_loop chunk_size overlap t (?e - overlap) ?chunks
          = Some (?chunks @ trimmed t ws) \<and> covering overlap t (?e - overlap) ws"
      using less.hyps [of "?e - overlap" ?chunks] adv less.prems e assms by simp
    then obtain ws
      where ws: "chunk_loop chunk_size overlap t (?e - overlap) ?chunks
          = Some (?chunks @ trimmed t ws)"
        and cov: "covering overlap t (?e - overlap) ws" by blast
    have "chunk_loop chunk_size overlap t start chunks
        = Some (chunks @ trimmed t ((start, ?e) # ws))"
      using less.prems e ws by (simp add: chunk_loop_step next_start_def trimmed_Cons)
    moreover have "covering overlap t start ((start, ?e) # ws)"
      using cov lo less.prems by (cases ws) (auto simp: covering_def)
    ultimately show ?thesis by blast
  qed
qed

lemma covering_no_gap:
  assumes "0 \<le> overlap"
  shows "covering overlap t start ws \<Longrightarrow> start \<le> i \<Longrightarrow> i < int (length t) \<Longrightarrow>
    \<exists>(s, e) \<in> set ws. 0 \<le> s \<and> s \<le> i \<and> i < e"
proof (induction ws arbitrary: start)
  case Nil
  then show ?case by (simp add: covering_def)
next
  case (Cons w ws)
  obtain s e where w: "w = (s, e)" by (cases w)
  show ?case
  proof (cases "i < e")
    case True
    then show ?thesis using Cons.prems w by (auto simp: covering_def)
  next
    case False
    then have "ws \<noteq> []" using Cons.prems w by (auto simp: covering_def)
    then obtain s' e' ws' where ws: "ws = (s', e') # ws'" by (cases ws) auto
    have "covering overlap t (e - overlap) ws"
      using Cons.prems w ws by (auto simp: covering_def)
    moreover have "e - overlap \<le> i" using False assms by linarith
    ultimately have "\<exists>(s, e) \<in> set ws. 0 \<le> s \<and> s \<le> i \<and> i < e"
      using Cons.IH Cons.prems by blast
    then show ?thesis by auto
  qed
qed

lemma trimmed_keeps:
  assumes "(s, e) \<in> set ws" "0 \<le> s" "s \<le> int i" "int i < e" "i < length t"
    "\<not> isspace (t ! i)"
  shows "\<exists>c \<in> set (trimmed t ws). t ! i \<in> set c"
proof -
  have "t ! i \<in> set (strip (py_slice t s e))"
    using assms by (simp add: strip_keeps py_slice_nth)
  moreover from this have "strip (py_slice t s e) \<noteq> []" by auto
  ultimately show ?thesis using assms(1) by (force simp: trimmed_def)
qed

subsection \<open>The claims about the chunker\<close>

text \<open>
  C10. A text no longer than \<open>chunk_size\<close> is returned as the only chunk, as it is: the
  early return neither strips it nor drops it when it is empty or all white space. On
  the path through the loop, for a longer text, every chunk returned is stripped and
  not empty.
\<close>

theorem chunk_text_short_verbatim:
  "(int (length t) \<le> chunk_size \<longrightarrow> chunk_text chunk_size overlap t = Some [t])
   \<and> (chunk_size < int (length t) \<and> chunk_text chunk_size overlap t = Some chunks \<longrightarrow>
        (\<forall>c \<in> set chunks. c \<noteq> [] \<and> strip c = c))"
  using chunk_loop_stripped [of chunk_size overlap t 0 "[]" chunks]
  by (auto simp: chunk_text_def)

theorem chunk_text_short_verbatim_witness:
  "int (length (str '''')) \<le> 2000 \<and> chunk_text 2000 200 (str '''') = Some [str '''']
   \<and> int (length (str '' '')) \<le> 2000 \<and> chunk_text 2000 200 (str '' '') = Some [str '' '']
   \<and> 199 < int (length (replicate 199 (32::nat) @ [97]))
   \<and> chunk_text 199 0 (replicate 199 32 @ [97]) = Some [[97]]
   \<and> strip [97] = [97]"
proof -
  have long: "chunk_text 199 0 (replicate 199 32 @ [97]) = Some [[97]]"
    by code_simp
  have len: "199 < int (length (replicate 199 (32::nat) @ [97]))"
    by simp
  show ?thesis
    using chunk_text_short_verbatim [of "str ''''" 2000 200]
      chunk_text_short_verbatim [of "str '' ''" 2000 200]
      chunk_text_short_verbatim [of "replicate 199 32 @ [97]" 199 0 "[[97]]"] long len
    by (simp add: str_def)
qed


text \<open>
  The same happens with a chunk size of 200: a period at index 1 cuts the first window
  to length 2, and with \<open>overlap = 2\<close> the next window starts at 0 again.
\<close>

lemma chunk_text_stuck_200:
  "chunk_text 200 2 (str ''a.'' @ replicate 199 97) = None"
proof -
  have "next_start 200 2 (str ''a.'' @ replicate 199 97) 0 = 0" by code_simp
  then show ?thesis
    by (simp add: chunk_text_def chunk_loop_stuck str_def)
qed



text \<open>
  C3, as the claim states it, fails: each window is stripped before it is appended, so
  white space at the ends of a window is in no chunk. With \<open>chunk_size = 3\<close> and
  \<open>overlap = 0\<close> the text \<open>a. b\<close> gives the chunks \<open>a.\<close> and \<open>b\<close>; the blank is lost.
  And with \<open>chunk_size = 10\<close> and \<open>overlap = 0\<close> a text of eleven letters gives no
  sequence at all.
\<close>

theorem chunk_text_cover_counterexample:
  "(0::int) < 3 \<and> chunk_text 3 0 (str ''a. b'') = Some [str ''a.'', str ''b'']
   \<and> concat [str ''a.'', str ''b''] \<noteq> str ''a. b''
   \<and> of_char CHR '' '' \<notin> set (concat [str ''a.'', str ''b''])
   \<and> (0::int) < 10 \<and> chunk_text 10 0 (str ''aaaaaaaaaaa'') = None"
proof -
  have "next_start 10 0 (str ''aaaaaaaaaaa'') 0 = 0" by code_simp
  then have "chunk_text 10 0 (str ''aaaaaaaaaaa'') = None"
    by (simp add: chunk_text_def chunk_loop_stuck str_def)
  moreover have "(0::int) < 3 \<and> chunk_text 3 0 (str ''a. b'') = Some [str ''a.'', str ''b'']
   \<and> concat [str ''a.'', str ''b''] \<noteq> str ''a. b''
   \<and> of_char CHR '' '' \<notin> set (concat [str ''a.'', str ''b''])"
    by code_simp
  ultimately show ?thesis by simp
qed

text \<open>
  C3, amended. When \<open>0 \<le> overlap\<close> and \<open>overlap + 198 < chunk_size\<close>, a text longer than
  \<open>chunk_size\<close> is cut into windows that start at 0, each \<open>overlap\<close> characters before the
  end of the one before, up to the end of the text, so that every index of the text lies
  in a window; the chunks returned are the windows stripped, without the ones that are
  empty then. Every character of the text that is not white space is in a chunk.
\<close>

theorem chunk_text_covers:
  assumes "0 \<le> overlap" "overlap + 198 < chunk_size" "chunk_size < int (length t)"
  shows "\<exists>ws. chunk_text chunk_size overlap t = Some (trimmed t ws)
    \<and> covering overlap t 0 ws
    \<and> (\<forall>i < length t. \<exists>(s, e) \<in> set ws. 0 \<le> s \<and> s \<le> int i \<and> int i < e)
    \<and> (\<forall>i < length t. \<not> isspace (t ! i) \<longrightarrow> (\<exists>c \<in> set (trimmed t ws). t ! i \<in> set c))"
proof -
  have "(0::int) < int (length t)" using assms by linarith
  from chunk_loop_windows [OF assms(1,2) _ this, of "[]"]
  obtain ws where run: "chunk_loop chunk_size overlap t 0 [] = Some (trimmed t ws)"
    and cov: "covering overlap t 0 ws" by auto
  have gap: "\<exists>(s, e) \<in> set ws. 0 \<le> s \<and> s \<le> int i \<and> int i < e" if "i < length t" for i
    using covering_no_gap [OF assms(1) cov, of "int i"] that by simp
  have keep: "\<exists>c \<in> set (trimmed t ws). t ! i \<in> set c"
    if "i < length t" "\<not> isspace (t ! i)" for i
    using gap [OF that(1)] trimmed_keeps [of _ _ ws i t] that by blast
  from run assms(3) have "chunk_text chunk_size overlap t = Some (trimmed t ws)"
    by (simp add: chunk_text_def)
  with cov gap keep show ?thesis by blast
qed

theorem chunk_text_covers_witness:
  "(0::int) \<le> 0 \<and> (0::int) + 198 < 199 \<and> 199 < int (length (32 # replicate 199 (97::nat)))
   \<and> chunk_text 199 0 (32 # replicate 199 97) = Some [replicate 198 97, [97]]
   \<and> (\<exists>ws. Some [replicate 198 97, [97]] = Some (trimmed (32 # replicate 199 97) ws)
        \<and> covering 0 (32 # replicate 199 97) 0 ws)"
proof -
  have "chunk_text 199 0 (32 # replicate 199 97) = Some [replicate 198 97, [97]]"
    by code_simp
  then show ?thesis
    using chunk_text_covers [of 0 199 "32 # replicate 199 97"] by auto
qed

section \<open>Properties of the merger\<close>

lemma map_of_dict_set: "map_of (dict_set kvs k v) = (map_of kvs)(k \<mapsto> v)"
  by (induction kvs k v rule: dict_set.induct) auto

lemma fst_dict_set: "fst ` set (dict_set kvs k v) = insert k (fst ` set kvs)"
  by (induction kvs k v rule: dict_set.induct) auto

lemma map_of_merge_item:
  "map_of (merge_item merged (key, v)) =
     (map_of merged)(key \<mapsto> (case map_of merged key of Some xs \<Rightarrow> xs | None \<Rightarrow> [])
                              @ appended v)"
proof -
  have same: "m(key \<mapsto> xs) = m" if "m key = Some xs" for m :: "pystr \<rightharpoonup> pyval list" and xs
    using that by (rule map_upd_triv)
  show ?thesis
    by (cases v; cases "map_of merged key")
      (auto simp: merge_item_def Let_def map_of_dict_set same)
qed

lemma added_Nil: "added k [] = []"
  by (simp add: added_def)

lemma added_Cons:
  "added k ((key, v) # items) = (if key = k then appended v else []) @ added k items"
  by (simp add: added_def)

lemma added_append: "added k (xs @ ys) = added k xs @ added k ys"
  by (simp add: added_def)

lemma added_absent: "k \<notin> fst ` set items \<Longrightarrow> added k items = []"
  by (induction items) (auto simp: added_def)

lemma map_of_merge_items:
  "map_of (foldl merge_item merged items) k =
     (if k \<in> fst ` set items
      then Some ((case map_of merged k of Some xs \<Rightarrow> xs | None \<Rightarrow> []) @ added k items)
      else map_of merged k)"
proof (induction items arbitrary: merged)
  case Nil
  then show ?case by simp
next
  case (Cons kv items)
  obtain key v where kv: "kv = (key, v)" by (cases kv)
  let ?m = "merge_item merged (key, v)"
  have ih: "map_of (foldl merge_item ?m items) k =
     (if k \<in> fst ` set items
      then Some ((case map_of ?m k of Some xs \<Rightarrow> xs | None \<Rightarrow> []) @ added k items)
      else map_of ?m k)"
    by (rule Cons.IH)
  show ?case
  proof (cases "key = k")
    case True
    then show ?thesis
      unfolding kv foldl_Cons ih
      by (simp add: map_of_merge_item added_Cons added_absent)
  next
    case False
    then show ?thesis
      unfolding kv foldl_Cons ih
      by (simp add: map_of_merge_item added_Cons)
  qed
qed

lemma map_of_merge_result:
  "map_of (merge_result merged r) k =
     (if k \<in> fst ` set (items_of r)
      then Some ((case map_of merged k of Some xs \<Rightarrow> xs | None \<Rightarrow> []) @ added k (items_of r))
      else map_of merged k)"
  by (cases r) (simp_all add: merge_result_def map_of_merge_items)

lemma map_of_merge_results:
  "map_of (foldl merge_result merged results) k =
     (if k \<in> fst ` set (concat (map items_of results))
      then Some ((case map_of merged k of Some xs \<Rightarrow> xs | None \<Rightarrow> [])
                 @ added k (concat (map items_of results)))
      else map_of merged k)"
proof (induction results arbitrary: merged)
  case Nil
  then show ?case by simp
next
  case (Cons r results)
  let ?m = "merge_result merged r"
  have ih: "map_of (foldl merge_result ?m results) k =
     (if k \<in> fst ` set (concat (map items_of results))
      then Some ((case map_of ?m k of Some xs \<Rightarrow> xs | None \<Rightarrow> [])
                 @ added k (concat (map items_of results)))
      else map_of ?m k)"
    by (rule Cons.IH)
  show ?case
  proof (cases "k \<in> fst ` set (items_of r)")
    case True
    then show ?thesis
      unfolding foldl_Cons ih
      by (simp add: map_of_merge_result added_append added_absent image_Un)
  next
    case False
    then show ?thesis
      unfolding foldl_Cons ih
      by (simp add: map_of_merge_result added_append added_absent image_Un)
  qed
qed

lemma merge_result_skip: "\<not> is_dict r \<Longrightarrow> merge_result merged r = merged"
  by (cases r) (simp_all add: merge_result_def)

lemma foldl_merge_result_filter:
  "foldl merge_result merged results = foldl merge_result merged (filter is_dict results)"
  by (induction results arbitrary: merged) (simp_all add: merge_result_skip)

text \<open>
  C4. For a sequence of mappings, the list \<open>merge\<close> returns for a category is the
  concatenation, in the order of the sequence, of what each value given for the category
  adds: the elements of a list, any other truthy value as one element, nothing for a
  falsy value; a category is a key of the result when some mapping has it. The two
  examples of the specification evaluate as it says.
\<close>

theorem merge_yaml_results_concat:
  "map_of (merge_yaml_results (map PDict ds)) k =
     (if k \<in> fst ` set (concat ds)
      then Some (added k (concat ds))
      else None)
   \<and> merge_yaml_results
        [PDict [(str ''x'', PList [PStr (str ''a'')])],
         PDict [(str ''x'', PList [PStr (str ''b''), PStr (str ''c'')])],
         PDict [(str ''x'', PStr (str ''d''))]]
      = [(str ''x'', [PStr (str ''a''), PStr (str ''b''), PStr (str ''c''), PStr (str ''d'')])]
   \<and> merge_yaml_results
        [PDict [(str ''x'', PList [])], PDict [(str ''x'', PStr (str ''''))],
         PDict [(str ''x'', PNone)]]
      = [(str ''x'', [])]"
proof -
  have "map items_of (map PDict ds) = ds"
    by (induction ds) simp_all
  then have "map_of (merge_yaml_results (map PDict ds)) k =
     (if k \<in> fst ` set (concat ds)
      then Some (added k (concat ds))
      else None)"
    by (simp add: merge_yaml_results_def map_of_merge_results)
  moreover have "merge_yaml_results
        [PDict [(str ''x'', PList [PStr (str ''a'')])],
         PDict [(str ''x'', PList [PStr (str ''b''), PStr (str ''c'')])],
         PDict [(str ''x'', PStr (str ''d''))]]
      = [(str ''x'', [PStr (str ''a''), PStr (str ''b''), PStr (str ''c''), PStr (str ''d'')])]"
    by code_simp
  moreover have "merge_yaml_results
        [PDict [(str ''x'', PList [])], PDict [(str ''x'', PStr (str ''''))],
         PDict [(str ''x'', PNone)]]
      = [(str ''x'', [])]"
    by code_simp
  ultimately show ?thesis by blast
qed

theorem merge_yaml_results_concat_witness:
  "map_of (merge_yaml_results (map PDict
      [[(str ''x'', PList [PStr (str ''a'')]), (str ''y'', PInt 0)],
       [(str ''x'', PInt 7)]])) (str ''x'')
    = Some [PStr (str ''a''), PInt 7]"
  using merge_yaml_results_concat
    [of "[[(str ''x'', PList [PStr (str ''a'')]), (str ''y'', PInt 0)], [(str ''x'', PInt 7)]]"
      "str ''x''"]
  by (simp add: str_def added_def)

text \<open>
  C9. An element of the input that is not a \<open>dict\<close> adds nothing: the result is the
  result for the dictionaries of the input alone, whatever the other elements are. The
  function has no failing step, so it returns a mapping for every list of values.
\<close>

theorem merge_yaml_results_skips_non_dicts:
  "merge_yaml_results results = merge_yaml_results (filter is_dict results)
   \<and> (\<not> is_dict r \<longrightarrow>
        merge_yaml_results (before @ r # after) = merge_yaml_results (before @ after))"
proof -
  have "merge_yaml_results rs = merge_yaml_results (filter is_dict rs)" for rs
    unfolding merge_yaml_results_def by (rule foldl_merge_result_filter)
  from this [of results] this [of "before @ r # after"] this [of "before @ after"]
  show ?thesis by simp
qed

theorem merge_yaml_results_skips_non_dicts_witness:
  "\<not> is_dict (PStr (str ''prose''))
   \<and> merge_yaml_results
        [PDict [(str ''x'', PInt 1)], PStr (str ''prose''), PList [PInt 2], PInt 3, PNone,
         PDict [(str ''x'', PInt 4)]]
      = [(str ''x'', [PInt 1, PInt 4])]
   \<and> merge_yaml_results
        ([PDict [(str ''x'', PInt 1)]] @ PStr (str ''prose'') # [PDict [(str ''x'', PInt 4)]])
      = merge_yaml_results ([PDict [(str ''x'', PInt 1)]] @ [PDict [(str ''x'', PInt 4)]])"
proof -
  have "merge_yaml_results (filter is_dict
        [PDict [(str ''x'', PInt 1)], PStr (str ''prose''), PList [PInt 2], PInt 3, PNone,
         PDict [(str ''x'', PInt 4)]])
      = [(str ''x'', [PInt 1, PInt 4])]"
    by code_simp
  then show ?thesis
    using merge_yaml_results_skips_non_dicts
      [of "[PDict [(str ''x'', PInt 1)], PStr (str ''prose''), PList [PInt 2], PInt 3, PNone,
         PDict [(str ''x'', PInt 4)]]" "PStr (str ''prose'')"
        "[PDict [(str ''x'', PInt 1)]]" "[PDict [(str ''x'', PInt 4)]]"]
    by simp
qed

section \<open>Properties of the parser\<close>

text \<open>The definitions that evaluate the parser on a given text.\<close>

lemmas parse_eval =
  str_def strip_def isspace_def extract_structured_data_def store_section_def
  section_entry_def section_header_def section_content_def Let_def is_word_def
  ascii_alnum_def parse_yaml_from_text_def as_value_def before_first_colon_def
  match_fence_def List.map_filter_simps

lemma map_of_store_section:
  "map_of (store_section result section) =
     map_of (List.map_filter section_entry [section] @ result)"
  by (cases "section_entry section")
    (auto simp: store_section_def List.map_filter_simps map_of_dict_set)

lemma map_of_store_sections:
  "map_of (foldl store_section result sections) =
     map_of (rev (List.map_filter section_entry sections) @ result)"
proof (induction sections arbitrary: result)
  case Nil
  then show ?case by (simp add: List.map_filter_simps)
next
  case (Cons s sections)
  have "map_of (foldl store_section (store_section result s) sections) =
      map_of (store_section result s) ++ map_of (rev (List.map_filter section_entry sections))"
    by (simp add: Cons.IH)
  also have "\<dots> = map_of (rev (List.map_filter section_entry (s # sections)) @ result)"
    by (cases "section_entry s")
      (auto simp: map_of_store_section List.map_filter_simps)
  finally show ?case by simp
qed

lemma split_lines_not_Nil: "split_lines s \<noteq> []"
  by (induction s) (auto split: list.splits)

lemma split_sections_not_Nil: "split_sections isalnum s \<noteq> []"
  by (induction s) (auto split: list.splits)

lemma filter_colon_split:
  "filter (\<lambda>c. c \<noteq> (58::nat)) line =
     takeWhile (\<lambda>c. c \<noteq> 58) line @ filter (\<lambda>c. c \<noteq> 58) (dropWhile (\<lambda>c. c \<noteq> 58) line)"
  by (induction line) auto

lemma filter_colon_only: "set xs \<subseteq> {58::nat} \<Longrightarrow> filter (\<lambda>c. c \<noteq> 58) xs = []"
  by (induction xs) auto

text \<open>
  C1. The failing input of the claim: whatever \<open>yaml.safe_load\<close> returns for the body is
  returned as it is when it is truthy, mapping or not. A text that the loader reads as a
  plain scalar, such as a line of prose, comes back as a \<open>str\<close>.
\<close>

theorem parse_yaml_from_text_returns_loaded:
  assumes "search_fence t = None" "safe_load (strip t) = Inr v" "truthy v"
  shows "parse_yaml_from_text safe_load isalnum t = Inr v"
  using assms by (simp add: parse_yaml_from_text_def)

theorem parse_yaml_from_text_returns_loaded_witness:
  "search_fence (str ''random prose with no structure'') = None
   \<and> truthy (PStr (str ''random prose with no structure''))
   \<and> parse_yaml_from_text (\<lambda>body. Inr (PStr body)) ascii_alnum
        (str ''random prose with no structure'')
      = Inr (PStr (str ''random prose with no structure''))
   \<and> \<not> is_dict (PStr (str ''random prose with no structure''))"
proof -
  have 1: "search_fence (str ''random prose with no structure'') = None"
    by (simp add: parse_eval)
  have 2: "strip (str ''random prose with no structure'')
      = str ''random prose with no structure''"
    by (simp add: parse_eval)
  have 3: "truthy (PStr (str ''random prose with no structure''))"
    by (simp add: str_def)
  show ?thesis
    using parse_yaml_from_text_returns_loaded
      [of "str ''random prose with no structure''" "\<lambda>body. Inr (PStr body)"
        "PStr (str ''random prose with no structure'')" ascii_alnum] 1 2 3
    by simp
qed

text \<open>
  C8, as the claim states it, fails: the key is not the text before the first colon of
  the header line. The fallback removes every colon of the line and keeps the rest, so
  the section \<open>name: x\<close> followed by the line \<open>- item\<close> is stored under \<open>name x\<close>.
\<close>

theorem extract_structured_data_key_counterexample:
  "extract_structured_data ascii_alnum (str ''name: x\<newline>- item'')
     = [(str ''name x'', [str ''- item''])]
   \<and> before_first_colon (str ''name: x'') = str ''name''
   \<and> str ''name x'' \<noteq> str ''name''
   \<and> parse_yaml_from_text (\<lambda>body. Inl YAMLError) ascii_alnum (str ''name: x\<newline>- item'')
     = Inr (PDict [(str ''name x'', PList [PStr (str ''- item'')])])"
  by (simp add: parse_eval)

text \<open>
  C8, amended. The result maps a key to the entry of the last section that stores it.
  A section stores an entry when it contains a colon and has content lines; its key is
  the first line of the stripped section with every colon removed, stripped, and its
  value the later lines, stripped, that are neither empty nor start with \<open>#\<close>. Where
  nothing but colons follows the first colon of the first line, the key is the text
  before that colon.
\<close>

theorem extract_structured_data_entries:
  "map_of (extract_structured_data isalnum t) =
     map_of (rev (List.map_filter section_entry (split_sections isalnum t)))
   \<and> (section_entry section = Some (key, content) \<longleftrightarrow>
        58 \<in> set section \<and> content \<noteq> []
        \<and> key = strip (filter (\<lambda>c. c \<noteq> 58) (hd (split_lines (strip section))))
        \<and> content = filter (\<lambda>line. line \<noteq> [] \<and> \<not> starts_with [35] line)
                      (map strip (tl (split_lines (strip section)))))
   \<and> (set (dropWhile (\<lambda>c. c \<noteq> 58) (hd (split_lines (strip section)))) \<subseteq> {58} \<longrightarrow>
        section_header section = before_first_colon (hd (split_lines (strip section))))"
proof -
  have 1: "map_of (extract_structured_data isalnum t) =
     map_of (rev (List.map_filter section_entry (split_sections isalnum t)))"
    by (simp add: extract_structured_data_def map_of_store_sections)
  have 2: "section_entry section = Some (key, content) \<longleftrightarrow>
        58 \<in> set section \<and> content \<noteq> []
        \<and> key = strip (filter (\<lambda>c. c \<noteq> 58) (hd (split_lines (strip section))))
        \<and> content = filter (\<lambda>line. line \<noteq> [] \<and> \<not> starts_with [35] line)
                      (map strip (tl (split_lines (strip section))))"
    by (cases "split_lines (strip section)")
      (auto simp: section_entry_def section_header_def section_content_def Let_def)
  have 3: "section_header section = before_first_colon (hd (split_lines (strip section)))"
    if "set (dropWhile (\<lambda>c. c \<noteq> 58) (hd (split_lines (strip section)))) \<subseteq> {58}"
  proof (cases "split_lines (strip section)")
    case Nil
    then show ?thesis
      using split_lines_not_Nil [of "strip section"] by simp
  next
    case (Cons line rest)
    with that have "filter (\<lambda>c. c \<noteq> 58) line = takeWhile (\<lambda>c. c \<noteq> 58) line"
      using filter_colon_split [of line] filter_colon_only by simp
    with Cons show ?thesis
      by (simp add: section_header_def before_first_colon_def)
  qed
  from 1 2 3 show ?thesis by blast
qed

theorem extract_structured_data_entries_witness:
  "map_of (extract_structured_data ascii_alnum
       (str ''intro\<newline>products:\<newline>- a\<newline># c\<newline>\<newline> - b \<newline>security:\<newline>products:\<newline>z''))
     (str ''products'') = Some [str ''z'']
   \<and> section_entry (str ''products:\<newline>- a\<newline># c\<newline>\<newline> - b '')
       = Some (str ''products'', [str ''- a'', str ''- b''])
   \<and> set (dropWhile (\<lambda>c. c \<noteq> 58)
         (hd (split_lines (strip (str ''products:\<newline>- a\<newline># c\<newline>\<newline> - b ''))))) \<subseteq> {58}
   \<and> section_header (str ''products:\<newline>- a\<newline># c\<newline>\<newline> - b '')
       = before_first_colon (str ''products:'')"
proof -
  let ?t = "str ''intro\<newline>products:\<newline>- a\<newline># c\<newline>\<newline> - b \<newline>security:\<newline>products:\<newline>z''"
  let ?s = "str ''products:\<newline>- a\<newline># c\<newline>\<newline> - b ''"
  note inst = extract_structured_data_entries
      [of ascii_alnum ?t ?s "str ''products''" "[str ''- a'', str ''- b'']"]
  have a: "map_of (rev (List.map_filter section_entry (split_sections ascii_alnum ?t)))
      (str ''products'') = Some [str ''z'']"
    by (simp add: parse_eval)
  have b: "58 \<in> set ?s \<and> [str ''- a'', str ''- b''] \<noteq> []
        \<and> str ''products'' = strip (filter (\<lambda>c. c \<noteq> 58) (hd (split_lines (strip ?s))))
        \<and> [str ''- a'', str ''- b''] = filter (\<lambda>line. line \<noteq> [] \<and> \<not> starts_with [35] line)
                      (map strip (tl (split_lines (strip ?s))))"
    by (simp add: parse_eval)
  have c: "set (dropWhile (\<lambda>c. c \<noteq> 58) (hd (split_lines (strip ?s)))) \<subseteq> {58}"
    by (simp add: parse_eval)
  have d: "hd (split_lines (strip ?s)) = str ''products:''"
    by (simp add: parse_eval)
  have 1: "map_of (extract_structured_data ascii_alnum ?t) (str ''products'') = Some [str ''z'']"
    unfolding inst [THEN conjunct1] by (rule a)
  have 2: "section_entry ?s = Some (str ''products'', [str ''- a'', str ''- b''])"
    using inst [THEN conjunct2, THEN conjunct1] b by (rule iffD2)
  have "section_header ?s = before_first_colon (hd (split_lines (strip ?s)))"
    using inst [THEN conjunct2, THEN conjunct2] c by (rule mp)
  then have 3: "section_header ?s = before_first_colon (str ''products:'')"
    unfolding d .
  from 1 2 c 3 show ?thesis by (intro conjI)
qed

section \<open>Properties of the orchestrator\<close>

subsection \<open>The loop over the chunks\<close>

lemma chunks_loop_eq:
  "chunks_loop self d et ics (trs, log) =
     (trs @ concat (map (chunk_values self d et) ics),
      log @ concat (map (chunk_errors self d et) ics))"
proof (induction ics arbitrary: trs log)
  case Nil
  then show ?case by simp
next
  case (Cons ic ics)
  obtain i chunk where ic: "ic = (i, chunk)" by (cases ic)
  show ?case
    unfolding ic
    by (simp add: Cons.IH chunk_values_def chunk_errors_def split: sum.splits option.splits)
qed

lemma chunk_items_values:
  "chunk_items self d et ic = concat (map appended (chunk_values self d et ic))"
  by (simp add: chunk_items_def chunk_values_def split: sum.splits option.splits)

lemma concat_appended_values:
  "concat (map appended (concat (map (chunk_values self d et) ics))) =
     concat (map (chunk_items self d et) ics)"
  by (induction ics) (simp_all add: chunk_items_values)

subsection \<open>Merging the values of one extraction type\<close>

lemma added_single_key: "added et (map (\<lambda>r. (et, r)) trs) = concat (map appended trs)"
  by (induction trs) (simp_all add: added_Nil added_Cons)

lemma map_of_merge_single_key:
  "map_of (merge_yaml_results (map (\<lambda>r. PDict [(et, r)]) trs)) et =
     (if trs \<noteq> [] then Some (concat (map appended trs)) else None)"
proof -
  have items: "concat (map items_of (map (\<lambda>r. PDict [(et, r)]) trs)) = map (\<lambda>r. (et, r)) trs"
    by (induction trs) simp_all
  have mem: "et \<in> fst ` set (map (\<lambda>r. (et, r)) trs) \<longleftrightarrow> trs \<noteq> []"
    by (cases trs) auto
  show ?thesis
    unfolding merge_yaml_results_def map_of_merge_results items mem
    by (simp add: added_single_key)
qed

subsection \<open>One extraction type, one document, all documents\<close>

lemma extract_for_type_eq:
  assumes "map_of results et = Some (PList xs)"
  shows "\<exists>results'. extract_for_type self d chunks (results, log) et
      = Inr (results', log @ concat (map (chunk_errors self d et) (enumerate_list chunks)))
    \<and> map_of results' =
        (map_of results)(et \<mapsto> PList (xs @ concat (map (chunk_items self d et) (enumerate_list chunks))))"
proof -
  let ?ics = "enumerate_list chunks"
  let ?trs = "concat (map (chunk_values self d et) ?ics)"
  let ?log = "log @ concat (map (chunk_errors self d et) ?ics)"
  have loop: "chunks_loop self d et ?ics ([], log) = (?trs, ?log)"
    by (simp add: chunks_loop_eq)
  show ?thesis
  proof (cases "?trs = []")
    case True
    have "concat (map (chunk_items self d et) ?ics) = concat (map appended ?trs)"
      by (rule concat_appended_values [symmetric])
    also have "\<dots> = []"
      unfolding True by simp
    finally have none: "concat (map (chunk_items self d et) ?ics) = []" .
    have run: "extract_for_type self d chunks (results, log) et = Inr (results, ?log)"
      using True by (simp add: extract_for_type_def loop)
    have same: "(map_of results)(et \<mapsto> PList xs) = map_of results"
      using assms by (rule map_upd_triv)
    show ?thesis
      unfolding none run by (rule exI [of _ results]) (simp add: same)
  next
    case False
    have "extract_for_type self d chunks (results, log) et =
        Inr (dict_set results et (PList (xs @ concat (map appended ?trs))), ?log)"
      using False assms
      by (simp add: extract_for_type_def loop map_of_merge_single_key extend_results_def)
    then show ?thesis
      by (simp add: map_of_dict_set concat_appended_values)
  qed
qed

lemma types_loop_eq:
  assumes "distinct ets"
    and "\<forall>k \<in> set ets. map_of results k = Some (PList (acc k))"
  shows "\<exists>results' more. types_loop self d chunks ets (results, log) = Inr (results', log @ more)
    \<and> (\<forall>k. map_of results' k =
          (if k \<in> set ets
           then Some (PList (acc k @ concat (map (chunk_items self d k) (enumerate_list chunks))))
           else map_of results k))"
  using assms
proof (induction ets arbitrary: results log)
  case Nil
  then show ?case by simp
next
  case (Cons et ets)
  let ?items = "\<lambda>k. concat (map (chunk_items self d k) (enumerate_list chunks))"
  from Cons.prems have here: "map_of results et = Some (PList (acc et))" by simp
  from extract_for_type_eq [OF here, of self d chunks log]
  obtain results1 log1
    where step: "extract_for_type self d chunks (results, log) et = Inr (results1, log1)"
      and log1: "log1 = log @ concat (map (chunk_errors self d et) (enumerate_list chunks))"
      and m1: "map_of results1 = (map_of results)(et \<mapsto> PList (acc et @ ?items et))"
    by blast
  have "distinct ets" and notin: "et \<notin> set ets" using Cons.prems by simp_all
  moreover have "\<forall>k \<in> set ets. map_of results1 k = Some (PList (acc k))"
    using Cons.prems notin by (auto simp: m1)
  ultimately obtain results' more
    where rest: "types_loop self d chunks ets (results1, log1) = Inr (results', log1 @ more)"
      and m': "\<forall>k. map_of results' k =
          (if k \<in> set ets then Some (PList (acc k @ ?items k)) else map_of results1 k)"
    using Cons.IH [of results1 log1] by blast
  have "types_loop self d chunks (et # ets) (results, log)
      = Inr (results', log @ (concat (map (chunk_errors self d et) (enumerate_list chunks)) @ more))"
    by (simp add: step [unfolded log1] rest [unfolded log1])
  moreover have "\<forall>k. map_of results' k =
          (if k \<in> set (et # ets) then Some (PList (acc k @ ?items k)) else map_of results k)"
    using m' notin by (auto simp: m1)
  ultimately show ?case by blast
qed

lemma enumerate_from_Cons:
  "zip [d..<d + length (x # xs)] (x # xs) = (d, x) # zip [Suc d..<Suc d + length xs] xs"
  by (subst upt_rec) simp

lemma docs_loop_eq:
  assumes "distinct (extraction_types self)"
    and "list_all (\<lambda>doc. chunk_text (tp_chunk_size self) (tp_overlap self) (doc_text doc) \<noteq> None) docs"
    and "\<forall>k \<in> set (extraction_types self). map_of results k = Some (PList (acc k))"
  shows "\<exists>results' more. docs_loop self d docs (results, log) = Returns (results', log @ more)
    \<and> (\<forall>k \<in> set (extraction_types self). map_of results' k =
          Some (PList (acc k @ concat (map (doc_items self k) (zip [d..<d + length docs] docs)))))
    \<and> (\<forall>k. k \<notin> set (extraction_types self) \<longrightarrow> map_of results' k = map_of results k)"
  using assms(2,3)
proof (induction docs arbitrary: d results log acc)
  case Nil
  then show ?case by simp
next
  case (Cons doc docs)
  let ?ets = "extraction_types self"
  from Cons.prems(1) obtain chunks
    where chunks: "chunk_text (tp_chunk_size self) (tp_overlap self) (doc_text doc) = Some chunks"
    by auto
  from types_loop_eq [OF assms(1) Cons.prems(2), of self d chunks log]
  obtain results1 more1
    where step: "types_loop self d chunks ?ets (results, log) = Inr (results1, log @ more1)"
      and m1: "\<forall>k. map_of results1 k =
          (if k \<in> set ?ets
           then Some (PList (acc k @ concat (map (chunk_items self d k) (enumerate_list chunks))))
           else map_of results k)"
    by blast
  have items: "doc_items self k (d, doc) = concat (map (chunk_items self d k) (enumerate_list chunks))"
    for k
    by (simp add: doc_items_def chunks)
  let ?acc = "\<lambda>k. acc k @ doc_items self k (d, doc)"
  have "\<forall>k \<in> set ?ets. map_of results1 k = Some (PList (?acc k))"
    using m1 by (simp add: items)
  moreover have "list_all (\<lambda>doc. chunk_text (tp_chunk_size self) (tp_overlap self) (doc_text doc) \<noteq> None) docs"
    using Cons.prems(1) by simp
  ultimately obtain results' more
    where rest: "docs_loop self (Suc d) docs (results1, log @ more1)
        = Returns (results', (log @ more1) @ more)"
      and m': "\<forall>k \<in> set ?ets. map_of results' k =
          Some (PList (?acc k @ concat (map (doc_items self k) (zip [Suc d..<Suc d + length docs] docs))))"
      and u': "\<forall>k. k \<notin> set ?ets \<longrightarrow> map_of results' k = map_of results1 k"
    using Cons.IH [of results1 ?acc "Suc d" "log @ more1"] by blast
  have "docs_loop self d (doc # docs) (results, log) = Returns (results', log @ (more1 @ more))"
    by (simp add: chunks step rest)
  moreover have "\<forall>k \<in> set ?ets. map_of results' k =
      Some (PList (acc k @ concat (map (doc_items self k) (zip [d..<d + length (doc # docs)] (doc # docs)))))"
    using m' unfolding enumerate_from_Cons by simp
  moreover have "\<forall>k. k \<notin> set ?ets \<longrightarrow> map_of results' k = map_of results k"
    using u' m1 by simp
  ultimately show ?case by blast
qed

lemma map_of_initial_results:
  "k \<in> set (extraction_types self) \<Longrightarrow> map_of (initial_results self docs) k = Some (PList [])"
proof -
  have "map_of (foldl (\<lambda>results et. dict_set results et (PList [])) r0 ets) k =
      (if k \<in> set ets then Some (PList []) else map_of r0 k)" for r0 :: "(pystr \<times> pyval) list" and ets
    by (induction ets arbitrary: r0) (auto simp: map_of_dict_set)
  then show "k \<in> set (extraction_types self) \<Longrightarrow> ?thesis"
    by (simp add: initial_results_def)
qed


lemma extract_information_eq:
  assumes "distinct (extraction_types self)"
    and "list_all (\<lambda>doc. chunk_text (tp_chunk_size self) (tp_overlap self) (doc_text doc) \<noteq> None) docs"
  shows "\<exists>results more. extract_information self docs log = Returns (results, log @ more)
    \<and> (\<forall>k \<in> set (extraction_types self). map_of results k =
          Some (PList (concat (map (doc_items self k) (enumerate_list docs)))))
    \<and> (\<forall>k. k \<notin> set (extraction_types self) \<longrightarrow>
          map_of results k = map_of (initial_results self docs) k)"
proof -
  have "\<forall>k \<in> set (extraction_types self).
      map_of (initial_results self docs) k = Some (PList ((\<lambda>k. []) k))"
    by (simp add: map_of_initial_results)
  from docs_loop_eq [OF assms this, of 0 log] show ?thesis
    by (simp add: extract_information_def enumerate_list_def)
qed

subsection \<open>The claims about the orchestrator\<close>



text \<open>The evaluation of the example extractor.\<close>

lemmas extract_eval =
  widget_extractor_def widget_reply_def widget_load_def chunk_items_def chunk_values_def
  chunk_errors_def process_chunk_def doc_items_def enumerate_list_def chunk_text_def
  extract_information_def initial_results_def extract_for_type_def extend_results_def
  merge_yaml_results_def merge_result_def merge_item_def
  str_def strip_def isspace_def parse_yaml_from_text_def match_fence_def Let_def



text \<open>
  C6. When the chunker returns for every document, the list that \<open>extract_information\<close>
  returns for an extraction type is the concatenation, document after document and
  within a document chunk after chunk, of the items of the chunks: nothing is moved and
  nothing is left out for being equal to another item.
\<close>

theorem extract_information_order:
  assumes "distinct (extraction_types self)"
    and "list_all (\<lambda>doc. chunk_text (tp_chunk_size self) (tp_overlap self) (doc_text doc) \<noteq> None) docs"
    and "et \<in> set (extraction_types self)"
  shows "\<exists>results log'. extract_information self docs log = Returns (results, log')
    \<and> map_of results et = Some (PList (concat (map (doc_items self et) (enumerate_list docs))))"
  using extract_information_eq [OF assms(1,2), of log] assms(3) by blast

theorem extract_information_order_witness:
  "distinct (extraction_types (widget_extractor 2000 200 []))
   \<and> list_all (\<lambda>doc. chunk_text (tp_chunk_size (widget_extractor 2000 200 []))
         (tp_overlap (widget_extractor 2000 200 [])) (doc_text doc) \<noteq> None)
       [\<lparr>file_name = str ''a.txt'', file_type = str ''txt'', doc_text = str ''first document''\<rparr>,
        \<lparr>file_name = str ''b.txt'', file_type = str ''txt'', doc_text = str ''second document''\<rparr>]
   \<and> str ''products'' \<in> set (extraction_types (widget_extractor 2000 200 []))
   \<and> (\<exists>results log'. extract_information (widget_extractor 2000 200 [])
       [\<lparr>file_name = str ''a.txt'', file_type = str ''txt'', doc_text = str ''first document''\<rparr>,
        \<lparr>file_name = str ''b.txt'', file_type = str ''txt'', doc_text = str ''second document''\<rparr>] []
        = Returns (results, log')
      \<and> map_of results (str ''products'')
        = Some (PList [PStr (str ''Widget''), PStr (str ''Widget'')]))"
proof -
  let ?self = "widget_extractor 2000 200 []"
  let ?docs = "[\<lparr>file_name = str ''a.txt'', file_type = str ''txt'', doc_text = str ''first document''\<rparr>,
        \<lparr>file_name = str ''b.txt'', file_type = str ''txt'', doc_text = str ''second document''\<rparr>]"
  have h1: "distinct (extraction_types ?self)"
    by (simp add: widget_extractor_def)
  have h2: "list_all (\<lambda>doc. chunk_text (tp_chunk_size ?self) (tp_overlap ?self) (doc_text doc) \<noteq> None) ?docs"
    by (simp add: widget_extractor_def chunk_text_def str_def)
  have h3: "str ''products'' \<in> set (extraction_types ?self)"
    by (simp add: widget_extractor_def)
  have items: "concat (map (doc_items ?self (str ''products'')) (enumerate_list ?docs))
      = [PStr (str ''Widget''), PStr (str ''Widget'')]"
    by (simp add: extract_eval)
  from extract_information_order [OF h1 h2 h3, of "[]"] have
    "\<exists>results log'. extract_information ?self ?docs [] = Returns (results, log')
      \<and> map_of results (str ''products'') = Some (PList [PStr (str ''Widget''), PStr (str ''Widget'')])"
    unfolding items .
  with h1 h2 h3 show ?thesis by (intro conjI)
qed

section \<open>Properties of the run\<close>







text \<open>A category named like the metadata entry replaces it, and the summary fails.\<close>

lemma print_summary_replaced:
  "map_of results (str ''extraction_metadata'') = Some (PList xs) \<Longrightarrow>
   print_summary results = Some TypeError"
  by (simp add: print_summary_def)











end
